theory Spec2Isabelle
  imports Main "HOL-Library.Word"
begin

unbundle bit_operations_syntax

section \<open>EasyCpp: the heterogeneous list and the file opener\<close>

subsection \<open>Values, \<open>std::any\<close> and \<open>std::type_info\<close>\<close>

text \<open>
  \<open>List\<close> (List/List.h) keeps two private vectors: \<open>data\<close>, a
  \<open>std::vector<std::any>\<close>, and \<open>types\<close>, a vector of pointers to
  \<open>std::type_info\<close>. A \<open>type_info\<close> is modelled by a tag; the three types that
  \<open>join\<close> names have a tag of their own, every other type \<open>ty_other k\<close>.
\<close>

datatype type_info = ty_int | ty_double | ty_string | ty_other nat

text \<open>
  A C++ value that a template argument \<open>const T& value\<close> can carry. An \<open>int\<close> is a
  32-bit word, a \<open>double\<close> its 64-bit IEEE 754 pattern, a \<open>std::string\<close> a
  character list. \<open>OtherV k r\<close> is a value of the further type \<open>ty_other k\<close> with
  representation \<open>r\<close> (a \<open>long\<close>, a \<open>char\<close>, a \<open>bool\<close> ...).
\<close>

datatype cpp_value =
    IntV "32 word"
  | DoubleV "64 word"
  | StringV string
  | OtherV nat nat

fun type_of :: "cpp_value \<Rightarrow> type_info" where
  "type_of (IntV _) = ty_int"
| "type_of (DoubleV _) = ty_double"
| "type_of (StringV _) = ty_string"
| "type_of (OtherV k _) = ty_other k"

text \<open>
  A \<open>std::any\<close> either holds no value or holds one value, whose dynamic type is the
  type of that value.
\<close>

datatype any = Empty | Holds cpp_value

fun has_value :: "any \<Rightarrow> bool" where
  "has_value Empty = False"
| "has_value (Holds _) = True"

text \<open>
  \<open>std::any_cast<T>(&element)\<close>, the pointer form: null (\<open>None\<close>) unless the
  dynamic type of the element is \<open>T\<close>.
\<close>

fun any_cast :: "type_info \<Rightarrow> any \<Rightarrow> cpp_value option" where
  "any_cast T Empty = None"
| "any_cast T (Holds w) = (if type_of w = T then Some w else None)"

text \<open>
  \<open>operator==\<close> of \<open>double\<close> on bit patterns: a NaN (exponent all ones, non-zero
  fraction) is equal to nothing, the two zeros are equal to each other, every other
  pair is equal exactly when the patterns are.
\<close>

definition is_nan :: "64 word \<Rightarrow> bool" where
  "is_nan w = (0x7FF0000000000000 < (w AND 0x7FFFFFFFFFFFFFFF))"

definition is_zero :: "64 word \<Rightarrow> bool" where
  "is_zero w = ((w AND 0x7FFFFFFFFFFFFFFF) = 0)"

definition double_eq :: "64 word \<Rightarrow> 64 word \<Rightarrow> bool" where
  "double_eq a b = (\<not> is_nan a \<and> \<not> is_nan b \<and> (a = b \<or> (is_zero a \<and> is_zero b)))"

text \<open>
  \<open>*std::any_cast<T>(&element) == value\<close>: both sides have the static type \<open>T\<close>.
  For the further types \<open>==\<close> is taken to compare the representation.
\<close>

fun cpp_eq :: "cpp_value \<Rightarrow> cpp_value \<Rightarrow> bool" where
  "cpp_eq (IntV a) (IntV b) = (a = b)"
| "cpp_eq (DoubleV a) (DoubleV b) = double_eq a b"
| "cpp_eq (StringV a) (StringV b) = (a = b)"
| "cpp_eq (OtherV k a) (OtherV j b) = (k = j \<and> a = b)"
| "cpp_eq _ _ = False"

subsection \<open>Exceptions\<close>

text \<open>
  Every \<open>throw\<close> of the two headers is a value of \<open>error\<close>. The standard exceptions
  that are built from a message carry it; the file exceptions carry the text of their
  member \<open>message\<close>, which \<open>what()\<close> returns.
\<close>

datatype error =
    out_of_range string
  | invalid_argument string
  | bad_any_cast
  | FileNotExistError string
  | FilePermissionError string
  | FileWriteError string
  | FileUnknownError string

text \<open>The class of an exception: what a \<open>catch\<close> clause can tell apart.\<close>

datatype exception_class =
    std_out_of_range
  | std_invalid_argument
  | std_bad_any_cast
  | cls_FileNotExistError
  | cls_FilePermissionError
  | cls_FileWriteError
  | cls_FileUnknownError

fun class_of :: "error \<Rightarrow> exception_class" where
  "class_of (out_of_range _) = std_out_of_range"
| "class_of (invalid_argument _) = std_invalid_argument"
| "class_of bad_any_cast = std_bad_any_cast"
| "class_of (FileNotExistError _) = cls_FileNotExistError"
| "class_of (FilePermissionError _) = cls_FilePermissionError"
| "class_of (FileWriteError _) = cls_FileWriteError"
| "class_of (FileUnknownError _) = cls_FileUnknownError"

subsection \<open>The class \<open>List\<close>\<close>

record List =
  data :: "any list"
  types :: "type_info list"

text \<open>
  The two vectors are private and are meant to have one length. Where the C++ indexes
  \<open>types\<close> with an index that is only checked against \<open>data.size()\<close>, the access is
  in range exactly under this condition; the theorems below that read \<open>types\<close> assume it.
  Running out of memory (\<open>std::bad_alloc\<close>) is not modelled.
\<close>

definition lockstep :: "List \<Rightarrow> bool" where
  "lockstep l = (length (data l) = length (types l))"

text \<open>Slot \<open>i\<close> of a list is the pair of its value and its discriminator.\<close>

definition slots :: "List \<Rightarrow> (any \<times> type_info) list" where
  "slots l = zip (data l) (types l)"

definition List_new :: "List" where
  "List_new = \<lparr>data = [], types = []\<rparr>"

definition size_List :: "List \<Rightarrow> nat" where
  "size_List l = length (data l)"

definition empty_List :: "List \<Rightarrow> bool" where
  "empty_List l = (data l = [])"

text \<open>
  \<open>append<T>(value)\<close>. The arguments are \<open>typeid(T)\<close> and the result \<open>a\<close> of the
  conversion \<open>std::any(value)\<close>: for a value \<open>v\<close> of an ordinary type it is
  \<open>Holds v\<close> with \<open>type_of v = T\<close>; for \<open>T = std::any\<close> it is a copy of the argument,
  which may be empty or hold a value of any type.
\<close>

definition append_List :: "List \<Rightarrow> type_info \<Rightarrow> any \<Rightarrow> List" where
  "append_List l T a = l\<lparr>data := data l @ [a], types := types l @ [T]\<rparr>"

text \<open>
  \<open>extend(const List& other)\<close>. The argument is a reference: to another list, or to
  the list the member is called on (\<open>l.extend(l)\<close>). \<open>extend\<close> does not test which.
  In the second case the two range inserts are given iterators into the vector they
  insert into, which \<open>std::vector::insert\<close> requires not to happen: the behaviour is
  undefined, and the result is \<open>None\<close>.
\<close>

datatype other_ref = This | Another List

definition extend_List :: "List \<Rightarrow> other_ref \<Rightarrow> List option" where
  "extend_List l other =
     (case other of
        Another ol \<Rightarrow> Some (l\<lparr>data := data l @ data ol, types := types l @ types ol\<rparr>)
      | This \<Rightarrow> None)"

text \<open>\<open>v.insert(v.begin() + index, x)\<close> and \<open>v.erase(v.begin() + index)\<close> on a vector.\<close>

definition vec_insert :: "'a list \<Rightarrow> nat \<Rightarrow> 'a \<Rightarrow> 'a list" where
  "vec_insert xs index x = take index xs @ x # drop index xs"

definition vec_erase :: "'a list \<Rightarrow> nat \<Rightarrow> 'a list" where
  "vec_erase xs index = take index xs @ drop (Suc index) xs"

definition insert_List :: "List \<Rightarrow> nat \<Rightarrow> type_info \<Rightarrow> any \<Rightarrow> List" where
  "insert_List l index T a =
     (if index \<le> length (data l)
      then l\<lparr>data := vec_insert (data l) index a, types := vec_insert (types l) index T\<rparr>
      else l)"

text \<open>
  \<open>std::find_if\<close>, as the distance of the returned iterator from \<open>begin()\<close>; the
  length of the list stands for \<open>end()\<close>.
\<close>

fun find_if :: "('a \<Rightarrow> bool) \<Rightarrow> 'a list \<Rightarrow> nat" where
  "find_if P [] = 0"
| "find_if P (x # xs) = (if P x then 0 else Suc (find_if P xs))"

text \<open>
  \<open>std::any_cast<T>(&element) && *std::any_cast<T>(&element) == value\<close>, with
  \<open>T\<close> the type of \<open>value\<close>: the lambda of \<open>remove\<close>, and the second and third
  conjunct of the test in \<open>index\<close> and \<open>count\<close>.
\<close>

definition cast_equal :: "cpp_value \<Rightarrow> any \<Rightarrow> bool" where
  "cast_equal v element =
     (case any_cast (type_of v) element of None \<Rightarrow> False | Some w \<Rightarrow> cpp_eq w v)"

definition remove_List :: "List \<Rightarrow> cpp_value \<Rightarrow> List" where
  "remove_List l v =
     (let it = find_if (cast_equal v) (data l) in
      if it \<noteq> length (data l)
      then l\<lparr>data := vec_erase (data l) it, types := vec_erase (types l) it\<rparr>
      else l)"

text \<open>
  \<open>pop(index)\<close> returns the value or throws, and leaves the list as the second
  component; a throw happens before any change.
\<close>

definition pop_at :: "List \<Rightarrow> nat \<Rightarrow> (error + any) \<times> List" where
  "pop_at l index =
     (if index < length (data l)
      then (Inr (data l ! index),
            l\<lparr>data := vec_erase (data l) index, types := vec_erase (types l) index\<rparr>)
      else (Inl (out_of_range ''Index out of range''), l))"

definition pop :: "List \<Rightarrow> nat option \<Rightarrow> (error + any) \<times> List" where
  "pop l index =
     (case index of
        None \<Rightarrow>
          if data l = [] then (Inl (out_of_range ''List is empty, cannot pop.''), l)
          else pop_at l (length (data l) - 1)
      | Some i \<Rightarrow> pop_at l i)"

definition clear :: "List \<Rightarrow> List" where
  "clear l = l\<lparr>data := [], types := []\<rparr>"

definition reverse :: "List \<Rightarrow> List" where
  "reverse l = l\<lparr>data := rev (data l), types := rev (types l)\<rparr>"

text \<open>
  The test of \<open>index\<close> and \<open>count\<close> at slot \<open>i\<close>:
  \<open>*types[i] == typeid(T) && any_cast<T>(&data[i]) && *any_cast<T>(&data[i]) == value\<close>.
\<close>

definition slot_matches :: "List \<Rightarrow> cpp_value \<Rightarrow> nat \<Rightarrow> bool" where
  "slot_matches l v i = (types l ! i = type_of v \<and> cast_equal v (data l ! i))"

text \<open>
  \<open>index<T>(value, start)\<close>: the loop variable starts at \<open>start\<close>, so the loop from
  \<open>i\<close> is the call with \<open>start = i\<close>.
\<close>

function index :: "List \<Rightarrow> cpp_value \<Rightarrow> nat \<Rightarrow> error + nat" where
  "index l v i =
     (if i < length (data l)
      then (if slot_matches l v i then Inr i else index l v (Suc i))
      else Inl (invalid_argument ''Value not found''))"
  by pat_completeness auto
termination
  by (relation "measure (\<lambda>(l, v, i). length (data l) - i)") auto

declare index.simps [simp del]

function count_loop :: "List \<Rightarrow> cpp_value \<Rightarrow> nat \<Rightarrow> nat \<Rightarrow> nat" where
  "count_loop l v i c =
     (if i < length (data l)
      then count_loop l v (Suc i) (if slot_matches l v i then Suc c else c)
      else c)"
  by pat_completeness auto
termination
  by (relation "measure (\<lambda>(l, v, i, c). length (data l) - i)") auto

declare count_loop.simps [simp del]

definition count :: "List \<Rightarrow> cpp_value \<Rightarrow> nat" where
  "count l v = count_loop l v 0 0"

text \<open>
  \<open>get<T>(idx)\<close>. The value form \<open>std::any_cast<T>(data[idx])\<close> throws
  \<open>std::bad_any_cast\<close> itself when the dynamic type of the value is not \<open>T\<close>.
\<close>

definition get :: "List \<Rightarrow> type_info \<Rightarrow> nat \<Rightarrow> error + cpp_value" where
  "get l T idx =
     (if idx < length (data l) \<and> types l ! idx = T
      then (case any_cast T (data l ! idx) of
              Some w \<Rightarrow> Inr w
            | None \<Rightarrow> Inl bad_any_cast)
      else Inl bad_any_cast)"

text \<open>
  \<open>operator[]\<close> returns a reference to the \<open>std::any\<close> of a slot, unchecked; an
  assignment \<open>list[idx] = a\<close> through it replaces the value and leaves \<open>types\<close>
  alone. Out of range the C++ is undefined: \<open>None\<close>.
\<close>

definition subscript_assign :: "List \<Rightarrow> nat \<Rightarrow> any \<Rightarrow> List option" where
  "subscript_assign l idx a =
     (if idx < length (data l) then Some (l\<lparr>data := (data l)[idx := a]\<rparr>) else None)"

subsection \<open>\<open>join\<close>\<close>

text \<open>\<open>std::to_string\<close> of an integer: its decimal digits, with a sign when negative.\<close>

definition digit_char :: "nat \<Rightarrow> char" where
  "digit_char n = ''0123456789'' ! n"

fun digits :: "nat \<Rightarrow> string" where
  "digits n =
     (if n < 10 then [digit_char n]
      else digits (n div 10) @ [digit_char (n mod 10)])"

declare digits.simps [simp del]

definition to_string :: "int \<Rightarrow> string" where
  "to_string n = (if n < 0 then CHR ''-'' # digits (nat (- n)) else digits (nat n))"

text \<open>
  What \<open>join\<close> prints depends on three things the headers do not fix: the text
  \<open>std::to_string\<close> gives for a \<open>double\<close>, the implementation's \<open>type_info::name()\<close>,
  and the address of slot \<open>i\<close> of \<open>data\<close> (cast to \<open>long long\<close>). They are
  parameters.
\<close>

record platform =
  double_to_string :: "64 word \<Rightarrow> string"
  type_name :: "type_info \<Rightarrow> string"
  slot_address :: "nat \<Rightarrow> int"

text \<open>
  The text added for a slot that has a value. The value form of \<open>std::any_cast\<close>
  throws when the slot's value is not of the type its discriminator names.
\<close>

definition render_slot :: "platform \<Rightarrow> List \<Rightarrow> nat \<Rightarrow> error + string" where
  "render_slot p l i =
     (if types l ! i = ty_int then
        (case data l ! i of Holds (IntV n) \<Rightarrow> Inr (to_string (sint n)) | _ \<Rightarrow> Inl bad_any_cast)
      else if types l ! i = ty_double then
        (case data l ! i of Holds (DoubleV d) \<Rightarrow> Inr (double_to_string p d) | _ \<Rightarrow> Inl bad_any_cast)
      else if types l ! i = ty_string then
        (case data l ! i of Holds (StringV s) \<Rightarrow> Inr s | _ \<Rightarrow> Inl bad_any_cast)
      else
        Inr (''('' @ type_name p (types l ! i) @ '' at '' @ to_string (slot_address p i) @ '')''))"

text \<open>
  The loop of \<open>join\<close> from slot \<open>i\<close> with the text \<open>result\<close> built so far. A slot
  without a value assigns the empty text to \<open>result\<close> and the loop goes on.
\<close>

function join_loop :: "platform \<Rightarrow> List \<Rightarrow> string \<Rightarrow> nat \<Rightarrow> string \<Rightarrow> error + string" where
  "join_loop p l separator i result =
     (if i < length (data l) then
        (if has_value (data l ! i) then
           (case render_slot p l i of
              Inl e \<Rightarrow> Inl e
            | Inr s \<Rightarrow>
                join_loop p l separator (Suc i)
                  ((if 0 < i then result @ separator else result) @ s))
         else join_loop p l separator (Suc i) [])
      else Inr result)"
  by pat_completeness auto
termination
  by (relation "measure (\<lambda>(p, l, separator, i, result). length (data l) - i)") auto

declare join_loop.simps [simp del]

definition join :: "platform \<Rightarrow> List \<Rightarrow> string \<Rightarrow> error + string" where
  "join p l separator = join_loop p l separator 0 []"

section \<open>The file opener (FileOperator/FileOperator.h)\<close>

text \<open>
  The mode macros and the \<open>access\<close> flags of the header.
\<close>

definition WRITE :: string where "WRITE = ''w''"
definition READ :: string where "READ = ''r''"
definition APPEND :: string where "APPEND = ''a''"
definition WRITE_E :: string where "WRITE_E = ''w+''"
definition READ_E :: string where "READ_E = ''r+''"
definition APPEND_E :: string where "APPEND_E = ''a+''"

definition F_OK :: int where "F_OK = 0"
definition X_OK :: int where "X_OK = 1"
definition W_OK :: int where "W_OK = 2"
definition R_OK :: int where "R_OK = 4"

text \<open>
  The operating system, as far as one call of \<open>open\<close> sees it: what \<open>access\<close>
  answers for a path and a flag set, what \<open>fopen_s\<close> answers for a path and a mode
  (its \<open>errno_t\<close> and the \<open>FILE*\<close> it stores), and the native calls made so far,
  oldest first.
\<close>

datatype native_call = Access string int | Fopen_s string string

record os =
  access_answer :: "string \<Rightarrow> int \<Rightarrow> int"
  fopen_s_answer :: "string \<Rightarrow> string \<Rightarrow> int \<times> nat"
  calls :: "native_call list"

definition access :: "os \<Rightarrow> string \<Rightarrow> int \<Rightarrow> int \<times> os" where
  "access w filename mode =
     (access_answer w filename mode, w\<lparr>calls := calls w @ [Access filename mode]\<rparr>)"

definition fopen_s :: "os \<Rightarrow> string \<Rightarrow> string \<Rightarrow> (int \<times> nat) \<times> os" where
  "fopen_s w filename method =
     (fopen_s_answer w filename method, w\<lparr>calls := calls w @ [Fopen_s filename method]\<rparr>)"

definition is_exist :: "os \<Rightarrow> string \<Rightarrow> bool \<times> os" where
  "is_exist w filename = (case access w filename F_OK of (r, w') \<Rightarrow> (r = 0, w'))"

definition check_permission :: "os \<Rightarrow> string \<Rightarrow> bool \<times> os" where
  "check_permission w filename =
     (case access w filename (R_OK OR W_OK) of (r, w') \<Rightarrow> (r = 0, w'))"

record File =
  file_handle :: nat
  filename :: string

text \<open>
  Each of the exception classes has a member \<open>char message[256]\<close> that its constructor
  fills with \<open>sprintf\<close>, without a bound. \<open>sprintf\<close> writes the formatted text and a
  terminating zero, so a text of 256 or more characters is written past the end of the
  array: the behaviour is undefined, and the result is \<open>None\<close>.
\<close>

definition apostrophe :: char where
  "apostrophe = CHR 0x27"

definition FILE_NOT_PERMISSION :: string where
  "FILE_NOT_PERMISSION = ''have permission''"

definition sprintf_message :: "string \<Rightarrow> string option" where
  "sprintf_message formatted = (if length formatted < 256 then Some formatted else None)"

text \<open>\<open>sprintf(message, "The file '%s' does not exist.", msg)\<close>\<close>

definition new_FileNotExistError :: "string \<Rightarrow> error option" where
  "new_FileNotExistError msg =
     map_option FileNotExistError
       (sprintf_message (''The file '' @ [apostrophe] @ msg @ [apostrophe] @ '' does not exist.''))"

text \<open>\<open>sprintf(message, "The file '%s' does not %s.", msg, permission)\<close>\<close>

definition new_FilePermissionError :: "string \<Rightarrow> string \<Rightarrow> error option" where
  "new_FilePermissionError msg permission =
     map_option FilePermissionError
       (sprintf_message
          (''The file '' @ [apostrophe] @ msg @ [apostrophe] @ '' does not '' @ permission @ ''.''))"

text \<open>\<open>sprintf(message, "Can't open the file with fopen_s function:'%s'", msg)\<close>\<close>

definition new_FileUnknownError :: "string \<Rightarrow> error option" where
  "new_FileUnknownError msg =
     map_option FileUnknownError
       (sprintf_message
          (''Can'' @ [apostrophe] @ ''t open the file with fopen_s function:'' @ [apostrophe]
           @ msg @ [apostrophe]))"

text \<open>
  \<open>open\<close> returns a \<open>File\<close> (\<open>Some (Inr f)\<close>), throws (\<open>Some (Inl e)\<close>), or is
  undefined because the constructor of the exception overflowed (\<open>None\<close>). The part of
  \<open>open\<close> after the checks is the native call and its outcome.
\<close>

definition open_native :: "os \<Rightarrow> string \<Rightarrow> string \<Rightarrow> (error + File) option \<times> os" where
  "open_native w name method =
     (case fopen_s w name method of
        ((err, fp), w') \<Rightarrow>
          if err \<noteq> 0 then (map_option Inl (new_FileUnknownError name), w')
          else (Some (Inr \<lparr>file_handle = fp, filename = name\<rparr>), w'))"

definition open_file :: "os \<Rightarrow> string \<Rightarrow> string \<Rightarrow> (error + File) option \<times> os" where
  "open_file w name method =
     (if method = READ \<or> method = READ_E then
        (case is_exist w name of
           (ex, w1) \<Rightarrow>
             if \<not> ex then (map_option Inl (new_FileNotExistError name), w1)
             else
               (case check_permission w1 name of
                  (ok, w2) \<Rightarrow>
                    if \<not> ok
                    then (map_option Inl (new_FilePermissionError name FILE_NOT_PERMISSION), w2)
                    else open_native w2 name method))
      else open_native w name method)"

section \<open>Examples\<close>

text \<open>
  The list \<open>[5, "five", 5.0]\<close> built by three calls of \<open>append\<close>; \<open>5.0\<close> is
  the pattern \<open>0x4014000000000000\<close>.
\<close>

definition scenario :: List where
  "scenario =
     \<lparr>data = [Holds (IntV 5), Holds (StringV ''five''), Holds (DoubleV 0x4014000000000000)],
      types = [ty_int, ty_string, ty_double]\<rparr>"

text \<open>
  A list whose second slot holds an \<open>int\<close> under another discriminator: the calls
  are \<open>append(std::string("five"))\<close> and \<open>append(std::any(5))\<close>, the second with
  \<open>T = std::any\<close> (here \<open>ty_other 0\<close>).
\<close>

definition mistagged :: List where
  "mistagged =
     append_List (append_List List_new ty_string (Holds (StringV ''five'')))
       (ty_other 0) (Holds (IntV 5))"

text \<open>
  A list whose first slot holds no value: \<open>append(std::any())\<close>, then \<open>append(5)\<close>.
\<close>

definition with_empty :: List where
  "with_empty = append_List (append_List List_new (ty_other 0) Empty) ty_int (Holds (IntV 5))"

text \<open>A platform to evaluate \<open>join\<close> on.\<close>

definition sample_platform :: platform where
  "sample_platform =
     \<lparr>double_to_string = (\<lambda>d. if d = 0x4014000000000000 then ''5.000000'' else ''?''),
      type_name = (\<lambda>T. ''St3any''),
      slot_address = (\<lambda>i. 4096 + 16 * int i)\<rparr>"

text \<open>
  An operating system in which \<open>missing.txt\<close> does not exist, \<open>locked.txt\<close> exists
  without any permission, and \<open>fopen_s\<close> fails on \<open>busy.txt\<close> with error 13.
\<close>

definition sample_os :: os where
  "sample_os =
     \<lparr>access_answer =
        (\<lambda>name mode.
           if name = ''missing.txt'' then - 1
           else if name = ''locked.txt'' \<and> mode \<noteq> 0 then - 1
           else 0),
      fopen_s_answer = (\<lambda>name method. if name = ''busy.txt'' then (13, 0) else (0, 7)),
      calls = []\<rparr>"

text \<open>
  An operating system in which no path exists, and a path of 229 characters.
\<close>

definition absent_os :: os where
  "absent_os =
     \<lparr>access_answer = (\<lambda>name mode. - 1),
      fopen_s_answer = (\<lambda>name method. (2, 0)),
      calls = []\<rparr>"

definition long_name :: string where
  "long_name = replicate 229 (CHR ''a'')"

section \<open>The comparison the specification describes\<close>

text \<open>
  The specification's wording for the searches: a slot matches a searched value of type
  \<open>T\<close> when its stored value has type \<open>T\<close> and equals the searched value
  (\<open>value_matches\<close>) and, for the type-qualified searches, its recorded
  discriminator is \<open>T\<close> as well (\<open>type_qualified_match\<close>). These two follow the
  specification; the theorems compare them with the tests of the code.
\<close>

definition value_matches :: "cpp_value \<Rightarrow> any \<Rightarrow> bool" where
  "value_matches v a =
     (case a of Empty \<Rightarrow> False | Holds w \<Rightarrow> type_of w = type_of v \<and> cpp_eq w v)"

definition type_qualified_match :: "List \<Rightarrow> cpp_value \<Rightarrow> nat \<Rightarrow> bool" where
  "type_qualified_match l v i = (types l ! i = type_of v \<and> value_matches v (data l ! i))"

section \<open>Vectors and slots\<close>

lemma length_vec_insert: "length (vec_insert xs i x) = Suc (length xs)"
  by (simp add: vec_insert_def)

lemma length_vec_erase:
  "length (vec_erase xs i) = (if i < length xs then length xs - 1 else length xs)"
  by (simp add: vec_erase_def)

lemma zip_vec_insert:
  "length xs = length ys \<Longrightarrow>
   zip (vec_insert xs i x) (vec_insert ys i y) = vec_insert (zip xs ys) i (x, y)"
  by (simp add: vec_insert_def take_zip drop_zip)

lemma zip_vec_erase:
  "length xs = length ys \<Longrightarrow>
   zip (vec_erase xs i) (vec_erase ys i) = vec_erase (zip xs ys) i"
  by (simp add: vec_erase_def take_zip drop_zip)

lemma append_lockstep:
  "lockstep l \<Longrightarrow> lockstep (append_List l T a) \<and> slots (append_List l T a) = slots l @ [(a, T)]"
  by (simp add: lockstep_def slots_def append_List_def)

lemma extend_lockstep:
  "lockstep l \<Longrightarrow> lockstep ol \<Longrightarrow>
   \<exists>l'. extend_List l (Another ol) = Some l' \<and> lockstep l' \<and> slots l' = slots l @ slots ol"
  by (simp add: lockstep_def slots_def extend_List_def)

lemma insert_lockstep:
  "lockstep l \<Longrightarrow>
   lockstep (insert_List l i T a) \<and>
   slots (insert_List l i T a) =
     (if i \<le> size_List l then vec_insert (slots l) i (a, T) else slots l)"
  by (simp add: lockstep_def slots_def insert_List_def size_List_def
      length_vec_insert zip_vec_insert)

lemma remove_lockstep:
  "lockstep l \<Longrightarrow>
   lockstep (remove_List l v) \<and>
   slots (remove_List l v) =
     (if find_if (cast_equal v) (data l) \<noteq> size_List l
      then vec_erase (slots l) (find_if (cast_equal v) (data l)) else slots l)"
  by (simp add: lockstep_def slots_def remove_List_def size_List_def Let_def
      length_vec_erase zip_vec_erase)

lemma pop_at_lockstep:
  "lockstep l \<Longrightarrow>
   lockstep (snd (pop_at l i)) \<and>
   slots (snd (pop_at l i)) = (if i < size_List l then vec_erase (slots l) i else slots l)"
  by (simp add: lockstep_def slots_def pop_at_def size_List_def
      length_vec_erase zip_vec_erase)

lemma pop_lockstep:
  "lockstep l \<Longrightarrow>
   lockstep (snd (pop l idx)) \<and>
   slots (snd (pop l idx)) =
     (case idx of
        None \<Rightarrow> if empty_List l then slots l else vec_erase (slots l) (size_List l - 1)
      | Some i \<Rightarrow> if i < size_List l then vec_erase (slots l) i else slots l)"
  by (cases idx) (simp_all add: pop_def pop_at_lockstep empty_List_def size_List_def)

lemma clear_lockstep: "lockstep (clear l) \<and> slots (clear l) = []"
  by (simp add: lockstep_def slots_def clear_def)

lemma reverse_lockstep:
  "lockstep l \<Longrightarrow> lockstep (reverse l) \<and> slots (reverse l) = rev (slots l)"
  by (simp add: lockstep_def slots_def reverse_def zip_rev)




lemma nth_vec_erase:
  "i < length xs \<Longrightarrow> j < length xs - 1 \<Longrightarrow>
   vec_erase xs i ! j = (if j < i then xs ! j else xs ! Suc j)"
  by (simp add: vec_erase_def nth_append min_def)

lemma nth_vec_insert:
  "i \<le> length xs \<Longrightarrow> j \<le> length xs \<Longrightarrow>
   vec_insert xs i x ! j = (if j < i then xs ! j else if j = i then x else xs ! (j - 1))"
proof -
  assume i: "i \<le> length xs" and j: "j \<le> length xs"
  show ?thesis
  proof (cases "j < i")
    case True
    then show ?thesis
      using i by (simp add: vec_insert_def nth_append)
  next
    case False
    then obtain k where k: "j = i + k"
      using le_Suc_ex [of i j] by auto
    show ?thesis
    proof (cases k)
      case 0
      then show ?thesis
        using i by (simp add: k vec_insert_def nth_append)
    next
      case (Suc m)
      have "i + m < length xs"
        using j k Suc by simp
      then show ?thesis
        using i by (simp add: k Suc vec_insert_def nth_append)
    qed
  qed
qed

lemma length_slots: "lockstep l \<Longrightarrow> length (slots l) = size_List l"
  by (simp add: lockstep_def slots_def size_List_def)

lemma scenario_built:
  "scenario =
     append_List
       (append_List (append_List List_new ty_int (Holds (IntV 5)))
          ty_string (Holds (StringV ''five'')))
       ty_double (Holds (DoubleV 0x4014000000000000))"
  by (simp add: scenario_def List_new_def append_List_def)

subsection \<open>The operations keep the two vectors in lockstep\<close>

text \<open>
  Started on lists whose two vectors have equal length, \<open>append\<close>, \<open>insert\<close>,
  \<open>remove\<close>, \<open>pop\<close>, \<open>clear\<close>, \<open>reverse\<close>, and \<open>extend\<close> with another list, end
  with the two vectors of equal length again, and the slots of the result are the
  slots of the start with the same pairs added, dropped or reordered together.
\<close>

lemma lockstep_preserved:
  assumes "lockstep l" and "lockstep ol"
  shows "(lockstep (append_List l T a) \<and> slots (append_List l T a) = slots l @ [(a, T)])
    \<and> (\<exists>l'. extend_List l (Another ol) = Some l' \<and> lockstep l'
           \<and> slots l' = slots l @ slots ol)
    \<and> (lockstep (insert_List l i T a) \<and>
        slots (insert_List l i T a) =
          (if i \<le> size_List l then vec_insert (slots l) i (a, T) else slots l))
    \<and> (lockstep (remove_List l v) \<and>
        slots (remove_List l v) =
          (if find_if (cast_equal v) (data l) \<noteq> size_List l
           then vec_erase (slots l) (find_if (cast_equal v) (data l)) else slots l))
    \<and> (lockstep (snd (pop l idx)) \<and>
        slots (snd (pop l idx)) =
          (case idx of
             None \<Rightarrow> if empty_List l then slots l else vec_erase (slots l) (size_List l - 1)
           | Some j \<Rightarrow> if j < size_List l then vec_erase (slots l) j else slots l))
    \<and> (lockstep (clear l) \<and> slots (clear l) = [])
    \<and> (lockstep (reverse l) \<and> slots (reverse l) = rev (slots l))"
proof (intro conjI)
  show "lockstep (append_List l T a)" "slots (append_List l T a) = slots l @ [(a, T)]"
    using append_lockstep [OF assms(1)] by simp_all
  show "\<exists>l'. extend_List l (Another ol) = Some l' \<and> lockstep l'
      \<and> slots l' = slots l @ slots ol"
    using extend_lockstep [OF assms] .
  show "lockstep (insert_List l i T a)"
    "slots (insert_List l i T a) =
       (if i \<le> size_List l then vec_insert (slots l) i (a, T) else slots l)"
    using insert_lockstep [OF assms(1)] by simp_all
  show "lockstep (remove_List l v)"
    "slots (remove_List l v) =
       (if find_if (cast_equal v) (data l) \<noteq> size_List l
        then vec_erase (slots l) (find_if (cast_equal v) (data l)) else slots l)"
    using remove_lockstep [OF assms(1)] by simp_all
  show "lockstep (snd (pop l idx))"
    "slots (snd (pop l idx)) =
       (case idx of
          None \<Rightarrow> if empty_List l then slots l else vec_erase (slots l) (size_List l - 1)
        | Some j \<Rightarrow> if j < size_List l then vec_erase (slots l) j else slots l)"
    using pop_lockstep [OF assms(1)] by simp_all
  show "lockstep (clear l)" "slots (clear l) = []"
    using clear_lockstep by simp_all
  show "lockstep (reverse l)" "slots (reverse l) = rev (slots l)"
    using reverse_lockstep [OF assms(1)] by simp_all
qed

lemma lockstep_preserved_example:
  "lockstep scenario \<and> lockstep (append_List List_new ty_int (Holds (IntV 7)))
   \<and> slots (append_List scenario ty_int (Holds (IntV 7))) =
       slots scenario @ [(Holds (IntV 7), ty_int)]
   \<and> map_option slots
         (extend_List scenario (Another (append_List List_new ty_int (Holds (IntV 7))))) =
       Some (slots scenario @ [(Holds (IntV 7), ty_int)])
   \<and> slots (insert_List scenario 1 ty_int (Holds (IntV 7))) =
       [(Holds (IntV 5), ty_int), (Holds (IntV 7), ty_int), (Holds (StringV ''five''), ty_string),
        (Holds (DoubleV 0x4014000000000000), ty_double)]
   \<and> slots (remove_List scenario (StringV ''five'')) =
       [(Holds (IntV 5), ty_int), (Holds (DoubleV 0x4014000000000000), ty_double)]
   \<and> slots (snd (pop scenario (Some 0))) =
       [(Holds (StringV ''five''), ty_string), (Holds (DoubleV 0x4014000000000000), ty_double)]
   \<and> lockstep (clear scenario)
   \<and> slots (reverse scenario) =
       [(Holds (DoubleV 0x4014000000000000), ty_double), (Holds (StringV ''five''), ty_string),
        (Holds (IntV 5), ty_int)]"
  using lockstep_preserved [of scenario "append_List List_new ty_int (Holds (IntV 7))"
      ty_int "Holds (IntV 7)" 1 "StringV ''five''" "Some 0"]
  by (simp add: scenario_def lockstep_def slots_def List_new_def append_List_def size_List_def
      vec_insert_def vec_erase_def cast_equal_def extend_List_def)

subsection \<open>The loops of \<open>index\<close> and \<open>count\<close>\<close>

lemma cast_equal_iff: "cast_equal v a = value_matches v a"
  by (cases a) (simp_all add: cast_equal_def value_matches_def)

lemma slot_matches_iff: "slot_matches l v i = type_qualified_match l v i"
  by (simp add: slot_matches_def type_qualified_match_def cast_equal_iff)

lemma index_Inr_iff:
  "index l v s = Inr i \<longleftrightarrow>
     s \<le> i \<and> i < length (data l) \<and> slot_matches l v i
     \<and> (\<forall>j. s \<le> j \<and> j < i \<longrightarrow> \<not> slot_matches l v j)"
proof (induction l v s rule: index.induct)
  case (1 l v s)
  show ?case
  proof (cases "s < length (data l)")
    case False
    then show ?thesis
      by (subst index.simps) auto
  next
    case inb: True
    show ?thesis
    proof (cases "slot_matches l v s")
      case True
      with inb have "index l v s = Inr s"
        by (subst index.simps) simp
      moreover have "i \<noteq> s \<Longrightarrow> s \<le> i \<Longrightarrow> \<exists>j. s \<le> j \<and> j < i \<and> slot_matches l v j"
        using True by (intro exI [of _ s]) auto
      ultimately show ?thesis
        using True inb by auto
    next
      case False
      with inb have step: "index l v s = index l v (Suc s)"
        by (subst index.simps) simp
      have "(\<forall>j. Suc s \<le> j \<and> j < i \<longrightarrow> \<not> slot_matches l v j)
            = (\<forall>j. s \<le> j \<and> j < i \<longrightarrow> \<not> slot_matches l v j)"
        using False by (metis Suc_leD le_antisym not_less_eq_eq)
      moreover have "slot_matches l v i \<Longrightarrow> (Suc s \<le> i) = (s \<le> i)"
        using False by (metis Suc_leD le_antisym not_less_eq_eq)
      ultimately show ?thesis
        using "1.IH" [OF inb False] step by auto
    qed
  qed
qed

lemma index_Inl_iff:
  "index l v s = Inl e \<longleftrightarrow>
     e = invalid_argument ''Value not found''
     \<and> (\<forall>j. s \<le> j \<and> j < length (data l) \<longrightarrow> \<not> slot_matches l v j)"
proof (induction l v s rule: index.induct)
  case (1 l v s)
  show ?case
  proof (cases "s < length (data l)")
    case False
    then show ?thesis
      by (subst index.simps) auto
  next
    case inb: True
    show ?thesis
    proof (cases "slot_matches l v s")
      case True
      with inb have "index l v s = Inr s"
        by (subst index.simps) simp
      then show ?thesis
        using True inb by auto
    next
      case False
      with inb have step: "index l v s = index l v (Suc s)"
        by (subst index.simps) simp
      have "(\<forall>j. Suc s \<le> j \<and> j < length (data l) \<longrightarrow> \<not> slot_matches l v j)
            = (\<forall>j. s \<le> j \<and> j < length (data l) \<longrightarrow> \<not> slot_matches l v j)"
        using False by (metis Suc_leD le_antisym not_less_eq_eq)
      then show ?thesis
        using "1.IH" [OF inb False] step by simp
    qed
  qed
qed

lemma count_loop_eq:
  "count_loop l v i c = c + length (filter (slot_matches l v) [i..<length (data l)])"
proof (induction l v i c rule: count_loop.induct)
  case (1 l v i c)
  show ?case
  proof (cases "i < length (data l)")
    case True
    then show ?thesis
      using "1.IH" by (subst count_loop.simps) (simp add: upt_conv_Cons)
  next
    case False
    then show ?thesis
      by (subst count_loop.simps) simp
  qed
qed

lemma count_card:
  "count l v = card {i. i < size_List l \<and> type_qualified_match l v i}"
proof -
  have "count l v = length (filter (slot_matches l v) [0..<length (data l)])"
    by (simp add: count_def count_loop_eq)
  also have "\<dots> = card ({i. slot_matches l v i} \<inter> set [0..<length (data l)])"
    by (simp add: distinct_length_filter)
  also have "{i. slot_matches l v i} \<inter> set [0..<length (data l)]
             = {i. i < size_List l \<and> type_qualified_match l v i}"
    by (auto simp add: size_List_def slot_matches_iff)
  finally show ?thesis .
qed

subsection \<open>\<open>find_if\<close> and \<open>count\<close> on slots\<close>

lemma find_if_first:
  "i < length xs \<Longrightarrow> P (xs ! i) \<Longrightarrow> (\<forall>j. j < i \<longrightarrow> \<not> P (xs ! j)) \<Longrightarrow> find_if P xs = i"
proof (induction xs arbitrary: i)
  case Nil
  then show ?case by simp
next
  case (Cons x xs)
  show ?case
  proof (cases i)
    case 0
    with Cons.prems show ?thesis by simp
  next
    case (Suc k)
    have "\<not> P x"
      using Cons.prems(3) Suc by (metis nth_Cons_0 zero_less_Suc)
    moreover have "find_if P xs = k"
    proof (rule Cons.IH)
      show "k < length xs" using Cons.prems(1) Suc by simp
      show "P (xs ! k)" using Cons.prems(2) Suc by simp
      show "\<forall>j. j < k \<longrightarrow> \<not> P (xs ! j)"
        using Cons.prems(3) Suc by (metis Suc_mono nth_Cons_Suc)
    qed
    ultimately show ?thesis
      using Suc by simp
  qed
qed

lemma count_loop_slots:
  "lockstep l \<Longrightarrow>
   count_loop l v i c =
     c + length (filter (\<lambda>(a, t). t = type_of v \<and> cast_equal v a) (drop i (slots l)))"
proof (induction l v i c rule: count_loop.induct)
  case (1 l v i c)
  have len: "length (slots l) = length (data l)"
    using "1.prems" by (simp add: lockstep_def slots_def)
  show ?case
  proof (cases "i < length (data l)")
    case True
    have "drop i (slots l) = (data l ! i, types l ! i) # drop (Suc i) (slots l)"
      using True len "1.prems"
      by (metis Cons_nth_drop_Suc lockstep_def nth_zip slots_def)
    then show ?thesis
      using True "1.IH" [OF True "1.prems"]
      by (subst count_loop.simps) (simp add: slot_matches_def)
  next
    case False
    then show ?thesis
      using len by (subst count_loop.simps) simp
  qed
qed

lemma count_slots:
  "lockstep l \<Longrightarrow>
   count l v = length (filter (\<lambda>(a, t). t = type_of v \<and> cast_equal v a) (slots l))"
  by (simp add: count_def count_loop_slots)

lemma filter_vec_erase:
  "i < length xs \<Longrightarrow> \<not> P (xs ! i) \<Longrightarrow> filter P (vec_erase xs i) = filter P xs"
proof -
  assume i: "i < length xs" and n: "\<not> P (xs ! i)"
  have "filter P xs = filter P (take i xs @ xs ! i # drop (Suc i) xs)"
    using i by (simp add: id_take_nth_drop [symmetric])
  then show ?thesis
    using n by (simp add: vec_erase_def)
qed

subsection \<open>The loop of \<open>join\<close>\<close>

lemma join_loop_skip:
  assumes "k < length (data l)" and "data l ! k = Empty"
    and "\<forall>j. i \<le> j \<and> j < k \<longrightarrow> has_value (data l ! j) \<longrightarrow> \<not> isl (render_slot p l j)"
    and "i \<le> k"
  shows "join_loop p l separator i result = join_loop p l separator (Suc k) []"
  using assms
proof (induction p l separator i result rule: join_loop.induct)
  case (1 p l separator i result)
  have inb: "i < length (data l)"
    using "1.prems" by simp
  show ?case
  proof (cases "i = k")
    case True
    then show ?thesis
      using "1.prems" by (subst join_loop.simps) simp
  next
    case False
    then have lt: "i < k" and le: "Suc i \<le> k"
      using "1.prems"(4) by simp_all
    have rest: "\<forall>j. Suc i \<le> j \<and> j < k \<longrightarrow> has_value (data l ! j) \<longrightarrow> \<not> isl (render_slot p l j)"
      using "1.prems"(3) by simp
    show ?thesis
    proof (cases "has_value (data l ! i)")
      case hv: True
      then have "\<not> isl (render_slot p l i)"
        using "1.prems"(3) lt by simp
      then obtain s where s: "render_slot p l i = Inr s"
        by (cases "render_slot p l i") simp_all
      have "join_loop p l separator i result =
              join_loop p l separator (Suc i)
                ((if 0 < i then result @ separator else result) @ s)"
        using inb hv s by (subst join_loop.simps) simp
      also have "\<dots> = join_loop p l separator (Suc k) []"
        using "1.IH"(1) [OF inb hv s "1.prems"(1,2) rest le] .
      finally show ?thesis .
    next
      case nv: False
      have "join_loop p l separator i result = join_loop p l separator (Suc i) []"
        using inb nv by (subst join_loop.simps) simp
      also have "\<dots> = join_loop p l separator (Suc k) []"
        using "1.IH"(2) [OF inb nv "1.prems"(1,2) rest le] .
      finally show ?thesis .
    qed
  qed
qed

lemma join_loop_all_values:
  assumes "\<forall>j. i \<le> j \<and> j < length (data l) \<longrightarrow> has_value (data l ! j) \<and> \<not> isl (render_slot p l j)"
    and "0 < i"
  shows "join_loop p l separator i result =
           Inr (result @ concat (map (\<lambda>j. separator @ projr (render_slot p l j))
                                   [i..<length (data l)]))"
  using assms
proof (induction p l separator i result rule: join_loop.induct)
  case (1 p l separator i result)
  show ?case
  proof (cases "i < length (data l)")
    case False
    then show ?thesis
      by (subst join_loop.simps) simp
  next
    case inb: True
    have hv: "has_value (data l ! i)" and ok: "\<not> isl (render_slot p l i)"
      using "1.prems"(1) inb by simp_all
    obtain s where s: "render_slot p l i = Inr s"
      using ok by (cases "render_slot p l i") simp_all
    have rest: "\<forall>j. Suc i \<le> j \<and> j < length (data l) \<longrightarrow>
                  has_value (data l ! j) \<and> \<not> isl (render_slot p l j)"
      using "1.prems"(1) by simp
    have "join_loop p l separator i result =
            join_loop p l separator (Suc i) ((result @ separator) @ s)"
      using inb hv s "1.prems"(2) by (subst join_loop.simps) simp
    also have "\<dots> = Inr (((result @ separator) @ s) @
                  concat (map (\<lambda>j. separator @ projr (render_slot p l j))
                            [Suc i..<length (data l)]))"
      using "1.IH"(1) [OF inb hv s rest] "1.prems"(2) by simp
    finally show ?thesis
      using inb s by (simp add: upt_conv_Cons)
  qed
qed

text \<open>
  What an empty slot does to \<open>join\<close>: when slot \<open>k\<close> is empty (and no slot before it
  makes \<open>join\<close> throw), the text built up to slot \<open>k\<close> is lost and the result is what
  the loop builds from slot \<open>k + 1\<close> on, starting from the empty text.
\<close>

lemma join_empty_slot:
  assumes "lockstep l" and "k < size_List l" and "data l ! k = Empty"
    and "\<forall>j. j < k \<longrightarrow> has_value (data l ! j) \<longrightarrow> \<not> isl (render_slot p l j)"
  shows "join p l separator = join_loop p l separator (Suc k) []
    \<and> (Suc k = size_List l \<longrightarrow> join p l separator = Inr [])
    \<and> ((\<forall>j. k < j \<and> j < size_List l \<longrightarrow> has_value (data l ! j) \<and> \<not> isl (render_slot p l j))
         \<longrightarrow> join p l separator =
               Inr (concat (map (\<lambda>j. separator @ projr (render_slot p l j))
                              [Suc k..<size_List l])))"
proof -
  have skip: "join p l separator = join_loop p l separator (Suc k) []"
    unfolding join_def using assms(2,3,4)
    by (intro join_loop_skip) (simp_all add: size_List_def)
  have last: "join_loop p l separator (Suc k) [] = Inr []" if "Suc k = size_List l"
    using that by (subst join_loop.simps) (simp add: size_List_def)
  have tail: "join_loop p l separator (Suc k) [] =
      Inr (concat (map (\<lambda>j. separator @ projr (render_slot p l j)) [Suc k..<size_List l]))"
    if "\<forall>j. k < j \<and> j < size_List l \<longrightarrow> has_value (data l ! j) \<and> \<not> isl (render_slot p l j)"
    using that join_loop_all_values [of "Suc k" l p separator "[]"]
    by (simp add: size_List_def Suc_le_eq)
  from skip last tail show ?thesis
    by simp
qed

lemma join_empty_slot_example:
  "lockstep with_empty \<and> 0 < size_List with_empty \<and> data with_empty ! 0 = Empty
   \<and> join sample_platform with_empty '','' = Inr ('','' @ ''5'')
   \<and> lockstep (reverse with_empty) \<and> 1 < size_List (reverse with_empty)
   \<and> data (reverse with_empty) ! 1 = Empty
   \<and> join sample_platform (reverse with_empty) '','' = Inr []"
  using join_empty_slot [of with_empty 0 sample_platform "'',''"]
    join_empty_slot [of "reverse with_empty" 1 sample_platform "'',''"]
  by (auto simp add: with_empty_def List_new_def append_List_def reverse_def lockstep_def
      size_List_def render_slot_def to_string_def digits.simps digit_char_def)

subsection \<open>\<open>open\<close> in one equation\<close>

lemma open_native_result:
  "open_native w name method =
     (if fst (fopen_s_answer w name method) \<noteq> 0
      then map_option Inl (new_FileUnknownError name)
      else Some (Inr \<lparr>file_handle = snd (fopen_s_answer w name method), filename = name\<rparr>),
      w\<lparr>calls := calls w @ [Fopen_s name method]\<rparr>)"
  by (simp add: open_native_def fopen_s_def split: prod.splits)

lemma open_file_result:
  "open_file w name method =
     (if method = READ \<or> method = READ_E then
        if access_answer w name F_OK \<noteq> 0
        then (map_option Inl (new_FileNotExistError name),
              w\<lparr>calls := calls w @ [Access name F_OK]\<rparr>)
        else if access_answer w name (R_OK OR W_OK) \<noteq> 0
        then (map_option Inl (new_FilePermissionError name FILE_NOT_PERMISSION),
              w\<lparr>calls := calls w @ [Access name F_OK, Access name (R_OK OR W_OK)]\<rparr>)
        else open_native
               (w\<lparr>calls := calls w @ [Access name F_OK, Access name (R_OK OR W_OK)]\<rparr>)
               name method
      else open_native w name method)"
  by (simp add: open_file_def is_exist_def check_permission_def access_def)

text \<open>
  The fixed parts of the three messages have 27, 37 and 44 characters, so the
  constructors stay inside \<open>message[256]\<close> for names of at most 228, 218 and 211
  characters, and overflow for longer ones.
\<close>

lemma new_FileNotExistError_fits:
  "new_FileNotExistError name =
     (if length name \<le> 228
      then Some (FileNotExistError
                   (''The file '' @ [apostrophe] @ name @ [apostrophe] @ '' does not exist.''))
      else None)"
  by (simp add: new_FileNotExistError_def sprintf_message_def)

lemma new_FilePermissionError_fits:
  "new_FilePermissionError name FILE_NOT_PERMISSION =
     (if length name \<le> 218
      then Some (FilePermissionError
                   (''The file '' @ [apostrophe] @ name @ [apostrophe]
                    @ '' does not have permission.''))
      else None)"
  by (simp add: new_FilePermissionError_def sprintf_message_def FILE_NOT_PERMISSION_def)

lemma new_FileUnknownError_fits:
  "new_FileUnknownError name =
     (if length name \<le> 211
      then Some (FileUnknownError
                   (''Can'' @ [apostrophe] @ ''t open the file with fopen_s function:''
                    @ [apostrophe] @ name @ [apostrophe]))
      else None)"
  by (simp add: new_FileUnknownError_def sprintf_message_def)

text \<open>
  For names that fit: with the mode \<open>READ\<close> or \<open>READ_E\<close>, \<open>open\<close> on a path for
  which \<open>access(F_OK)\<close> fails throws \<open>FileNotExistError\<close> having made that one native
  call and no \<open>fopen_s\<close>; when the path exists and \<open>access(R_OK | W_OK)\<close> fails it
  throws \<open>FilePermissionError\<close>, again without \<open>fopen_s\<close>. With any mode, when
  \<open>open\<close> does call \<open>fopen_s\<close> and that returns a non-zero error, \<open>open\<close> throws
  \<open>FileUnknownError\<close>. For longer names each of the three is undefined.
\<close>

lemma open_file_failures:
  "((method = READ \<or> method = READ_E) \<and> access_answer w name F_OK \<noteq> 0 \<longrightarrow>
      fst (open_file w name method) =
        (if length name \<le> 228
         then Some (Inl (FileNotExistError
                (''The file '' @ [apostrophe] @ name @ [apostrophe] @ '' does not exist.'')))
         else None)
      \<and> calls (snd (open_file w name method)) = calls w @ [Access name F_OK])
   \<and> ((method = READ \<or> method = READ_E) \<and> access_answer w name F_OK = 0
        \<and> access_answer w name (R_OK OR W_OK) \<noteq> 0 \<longrightarrow>
      fst (open_file w name method) =
        (if length name \<le> 218
         then Some (Inl (FilePermissionError
                (''The file '' @ [apostrophe] @ name @ [apostrophe]
                 @ '' does not have permission.'')))
         else None)
      \<and> calls (snd (open_file w name method)) =
          calls w @ [Access name F_OK, Access name (R_OK OR W_OK)])
   \<and> (Fopen_s name method \<in> set (drop (length (calls w)) (calls (snd (open_file w name method))))
        \<and> fst (fopen_s_answer w name method) \<noteq> 0 \<longrightarrow>
      fst (open_file w name method) =
        (if length name \<le> 211
         then Some (Inl (FileUnknownError
                (''Can'' @ [apostrophe] @ ''t open the file with fopen_s function:''
                 @ [apostrophe] @ name @ [apostrophe])))
         else None))"
  by (simp add: open_file_result open_native_result new_FileNotExistError_fits
      new_FilePermissionError_fits new_FileUnknownError_fits)

lemma open_file_failures_example:
  "access_answer sample_os ''missing.txt'' F_OK \<noteq> 0
   \<and> open_file sample_os ''missing.txt'' READ =
       (Some (Inl (FileNotExistError
          (''The file '' @ [apostrophe] @ ''missing.txt'' @ [apostrophe] @ '' does not exist.''))),
        sample_os\<lparr>calls := [Access ''missing.txt'' 0]\<rparr>)
   \<and> access_answer sample_os ''locked.txt'' F_OK = 0
   \<and> access_answer sample_os ''locked.txt'' (R_OK OR W_OK) \<noteq> 0
   \<and> map_option (map_sum class_of id) (fst (open_file sample_os ''locked.txt'' READ_E)) =
       Some (Inl cls_FilePermissionError)
   \<and> Fopen_s ''busy.txt'' WRITE \<in> set (calls (snd (open_file sample_os ''busy.txt'' WRITE)))
   \<and> fst (fopen_s_answer sample_os ''busy.txt'' WRITE) \<noteq> 0
   \<and> map_option (map_sum class_of id) (fst (open_file sample_os ''busy.txt'' WRITE)) =
       Some (Inl cls_FileUnknownError)
   \<and> map_option (map_sum class_of id) (fst (open_file sample_os ''busy.txt'' READ)) =
       Some (Inl cls_FileUnknownError)"
  using open_file_failures [of READ sample_os "''missing.txt''"]
    open_file_failures [of READ_E sample_os "''locked.txt''"]
    open_file_failures [of WRITE sample_os "''busy.txt''"]
    open_file_failures [of READ sample_os "''busy.txt''"]
  by (simp add: sample_os_def open_file_result open_native_result
      READ_def READ_E_def WRITE_def F_OK_def R_OK_def W_OK_def)

section \<open>The claims\<close>

text \<open>
  C1. The claim is that every operation of \<open>List\<close>, \<open>extend\<close> among them, started
  on vectors of equal length leaves the two vectors of equal length with value and
  discriminator of each slot moved together. \<open>extend\<close> called with the list itself
  (\<open>l.extend(l)\<close> on \<open>[5, "five", 5.0]\<close>) hands the vector's own range to
  \<open>insert\<close>: the behaviour is undefined and no such state is guaranteed. For every
  other call the property holds (\<open>lockstep_preserved\<close>).
\<close>

theorem extend_self_undefined: "extend_List scenario This = None"
  by (simp add: extend_List_def)

text \<open>
  C2. \<open>index\<close> and \<open>count\<close> compare type-qualified: \<open>index(value, start)\<close>
  returns \<open>i\<close> exactly when \<open>i\<close> is the first slot from \<open>start\<close> on whose
  discriminator is the type of \<open>value\<close> and whose stored value has that type and is
  equal to \<open>value\<close>, and \<open>count\<close> is the number of such slots. So \<open>index\<close> of an
  \<open>int\<close> never returns a slot that holds a \<open>double\<close>, and in the list
  \<open>[5, "five", 5.0]\<close> the index of the \<open>int\<close> 5 is 0 and the count of the
  \<open>double\<close> 5.0 is 1.
\<close>

theorem index_count_type_qualified:
  assumes "lockstep l"
  shows "(index l v start = Inr i \<longleftrightarrow>
            start \<le> i \<and> i < size_List l \<and> type_qualified_match l v i
            \<and> (\<forall>j. start \<le> j \<and> j < i \<longrightarrow> \<not> type_qualified_match l v j))
    \<and> (index l v start = Inr i \<longrightarrow>
          types l ! i = type_of v
          \<and> (\<exists>w. data l ! i = Holds w \<and> type_of w = type_of v \<and> cpp_eq w v))
    \<and> (i < size_List l \<and> data l ! i = Holds (DoubleV d) \<longrightarrow> index l (IntV n) start \<noteq> Inr i)
    \<and> count l v = card {i. i < size_List l \<and> type_qualified_match l v i}
    \<and> index scenario (IntV 5) 0 = Inr 0
    \<and> count scenario (DoubleV 0x4014000000000000) = 1"
proof (intro conjI)
  show iff: "index l v start = Inr i \<longleftrightarrow>
      start \<le> i \<and> i < size_List l \<and> type_qualified_match l v i
      \<and> (\<forall>j. start \<le> j \<and> j < i \<longrightarrow> \<not> type_qualified_match l v j)" for v
    by (simp add: index_Inr_iff slot_matches_iff size_List_def)
  show "index l v start = Inr i \<longrightarrow>
      types l ! i = type_of v
      \<and> (\<exists>w. data l ! i = Holds w \<and> type_of w = type_of v \<and> cpp_eq w v)"
    by (auto simp add: iff type_qualified_match_def value_matches_def split: any.splits)
  show "i < size_List l \<and> data l ! i = Holds (DoubleV d) \<longrightarrow> index l (IntV n) start \<noteq> Inr i"
    by (simp add: iff type_qualified_match_def value_matches_def)
  show "count l v = card {i. i < size_List l \<and> type_qualified_match l v i}"
    by (rule count_card)
  show "index scenario (IntV 5) 0 = Inr 0"
    by (simp add: scenario_def index.simps slot_matches_def cast_equal_def)
  show "count scenario (DoubleV 0x4014000000000000) = 1"
    by (simp add: scenario_def count_def count_loop.simps slot_matches_def cast_equal_def
        double_eq_def is_nan_def is_zero_def)
qed

theorem index_count_type_qualified_witness:
  "lockstep scenario
   \<and> index scenario (IntV 5) 0 = Inr 0
   \<and> types scenario ! 0 = type_of (IntV 5)
   \<and> 2 < size_List scenario \<and> data scenario ! 2 = Holds (DoubleV 0x4014000000000000)
   \<and> index scenario (IntV 5) 0 \<noteq> Inr 2
   \<and> count scenario (DoubleV 0x4014000000000000) = 1"
  using index_count_type_qualified [of scenario "IntV 5" 0 0]
    index_count_type_qualified [of scenario "IntV 5" 0 2 "0x4014000000000000" 5]
  by (simp add: scenario_def lockstep_def size_List_def)

text \<open>
  C3, as the code has it. On an empty list \<open>pop()\<close> and \<open>pop(0)\<close> both throw
  \<open>std::out_of_range\<close> and leave the list as it was; the two exceptions have the
  same class and differ in their message only.
\<close>

theorem pop_empty_errors:
  assumes "empty_List l"
  shows "pop l None = (Inl (out_of_range ''List is empty, cannot pop.''), l)
    \<and> pop l (Some 0) = (Inl (out_of_range ''Index out of range''), l)
    \<and> class_of (out_of_range ''List is empty, cannot pop.'') = std_out_of_range
    \<and> class_of (out_of_range ''Index out of range'') = std_out_of_range
    \<and> out_of_range ''List is empty, cannot pop.'' \<noteq> out_of_range ''Index out of range''"
  using assms by (simp add: pop_def pop_at_def empty_List_def)

theorem pop_empty_errors_witness:
  "empty_List List_new
   \<and> pop List_new None = (Inl (out_of_range ''List is empty, cannot pop.''), List_new)
   \<and> pop List_new (Some 0) = (Inl (out_of_range ''Index out of range''), List_new)"
  using pop_empty_errors [of List_new] by (simp add: empty_List_def List_new_def)

text \<open>
  The two failures of C3 are of one class, so a handler cannot tell them apart by
  kind.
\<close>

theorem pop_empty_same_class:
  "fst (pop List_new None) = Inl (out_of_range ''List is empty, cannot pop.'')
   \<and> fst (pop List_new (Some 0)) = Inl (out_of_range ''Index out of range'')
   \<and> class_of (out_of_range ''List is empty, cannot pop.'') =
       class_of (out_of_range ''Index out of range'')"
  by (simp add: pop_def pop_at_def List_new_def)

text \<open>
  C4. For a valid index \<open>i\<close>, \<open>pop(i)\<close> returns the value of slot \<open>i\<close>, the size
  goes down by one, the slots before \<open>i\<close> stay and every slot after \<open>i\<close> moves down
  by one position, value and discriminator together.
\<close>

theorem pop_valid_index:
  assumes "lockstep l" and "i < size_List l"
  shows "fst (pop l (Some i)) = Inr (data l ! i)
    \<and> size_List (snd (pop l (Some i))) = size_List l - 1
    \<and> lockstep (snd (pop l (Some i)))
    \<and> slots (snd (pop l (Some i))) = take i (slots l) @ drop (Suc i) (slots l)
    \<and> (\<forall>j. j < i \<longrightarrow> slots (snd (pop l (Some i))) ! j = slots l ! j)
    \<and> (\<forall>j. i \<le> j \<and> j < size_List l - 1 \<longrightarrow>
          slots (snd (pop l (Some i))) ! j = slots l ! Suc j)"
proof -
  let ?l' = "snd (pop l (Some i))"
  have ret: "fst (pop l (Some i)) = Inr (data l ! i)"
    using assms(2) by (simp add: pop_def pop_at_def size_List_def)
  have sz: "size_List ?l' = size_List l - 1"
    using assms(2) by (simp add: pop_def pop_at_def size_List_def length_vec_erase)
  have sl: "slots ?l' = vec_erase (slots l) i" and ls: "lockstep ?l'"
    using pop_lockstep [OF assms(1), of "Some i"] assms(2) by simp_all
  have len: "i < length (slots l)"
    using assms by (simp add: length_slots)
  have before: "\<forall>j. j < i \<longrightarrow> slots ?l' ! j = slots l ! j"
    using len by (simp add: sl nth_vec_erase)
  have after: "\<forall>j. i \<le> j \<and> j < size_List l - 1 \<longrightarrow> slots ?l' ! j = slots l ! Suc j"
    using len assms(1) by (simp add: sl nth_vec_erase length_slots)
  from ret sz ls sl before after show ?thesis
    by (simp add: vec_erase_def)
qed

theorem pop_valid_index_witness:
  "lockstep scenario \<and> 1 < size_List scenario
   \<and> fst (pop scenario (Some 1)) = Inr (Holds (StringV ''five''))
   \<and> size_List (snd (pop scenario (Some 1))) = 2
   \<and> slots (snd (pop scenario (Some 1))) =
       [(Holds (IntV 5), ty_int), (Holds (DoubleV 0x4014000000000000), ty_double)]"
  using pop_valid_index [of scenario 1]
  by (simp add: scenario_def lockstep_def slots_def size_List_def)


text \<open>
  C6, as the code has it. \<open>get<T>(idx)\<close> throws \<open>std::bad_any_cast\<close> when \<open>idx\<close>
  is in bounds and the discriminator of the slot is not \<open>T\<close>, and throws the same
  \<open>std::bad_any_cast\<close> when \<open>idx\<close> is out of bounds; it never throws anything else.
  When the discriminator is \<open>T\<close> and the slot holds a value of type \<open>T\<close>, that value
  is returned.
\<close>

theorem get_failures:
  assumes "lockstep l"
  shows "(idx < size_List l \<and> types l ! idx \<noteq> T \<longrightarrow> get l T idx = Inl bad_any_cast)
    \<and> (size_List l \<le> idx \<longrightarrow> get l T idx = Inl bad_any_cast)
    \<and> (get l T idx = Inl e \<longrightarrow> class_of e = std_bad_any_cast)
    \<and> (idx < size_List l \<and> types l ! idx = T \<and> data l ! idx = Holds w \<and> type_of w = T
          \<longrightarrow> get l T idx = Inr w)"
  by (auto simp add: get_def size_List_def split: option.splits if_splits)

theorem get_failures_witness:
  "lockstep scenario
   \<and> 1 < size_List scenario \<and> types scenario ! 1 \<noteq> ty_int
   \<and> get scenario ty_int 1 = Inl bad_any_cast
   \<and> size_List scenario \<le> 3
   \<and> get scenario ty_int 3 = Inl bad_any_cast
   \<and> get scenario ty_string 1 = Inr (StringV ''five'')"
  using get_failures [of scenario 1 ty_int] get_failures [of scenario 3 ty_int]
    get_failures [of scenario 1 ty_string _ "StringV ''five''"]
  by (simp add: scenario_def lockstep_def size_List_def)

text \<open>
  The two failures of C6 are the same exception: on \<open>[5, "five", 5.0]\<close>,
  \<open>get<int>(1)\<close> (a text slot) and \<open>get<int>(3)\<close> (out of bounds) have equal outcomes.
\<close>

theorem get_same_failure:
  "get scenario ty_int 1 = Inl bad_any_cast \<and> get scenario ty_int 3 = Inl bad_any_cast
   \<and> get scenario ty_int 1 = get scenario ty_int 3"
  by (simp add: get_def scenario_def)

text \<open>
  C7. \<open>insert(index, value)\<close> with \<open>index\<close> greater than the size changes nothing
  and does not throw; with \<open>index\<close> at most the size the new slot is at \<open>index\<close>,
  the slots before it stay and the slots from \<open>index\<close> on move up by one.
\<close>

theorem insert_index:
  "(size_List l < idx \<longrightarrow> insert_List l idx T a = l)
   \<and> (lockstep l \<and> idx \<le> size_List l \<longrightarrow>
        size_List (insert_List l idx T a) = Suc (size_List l)
        \<and> lockstep (insert_List l idx T a)
        \<and> slots (insert_List l idx T a) = take idx (slots l) @ (a, T) # drop idx (slots l)
        \<and> slots (insert_List l idx T a) ! idx = (a, T)
        \<and> (\<forall>j. j < idx \<longrightarrow> slots (insert_List l idx T a) ! j = slots l ! j)
        \<and> (\<forall>j. idx \<le> j \<and> j < size_List l \<longrightarrow>
              slots (insert_List l idx T a) ! Suc j = slots l ! j))"
proof (intro conjI impI)
  assume "size_List l < idx"
  then show "insert_List l idx T a = l"
    by (simp add: insert_List_def size_List_def)
next
  assume h: "lockstep l \<and> idx \<le> size_List l"
  let ?l' = "insert_List l idx T a"
  have sl: "slots ?l' = vec_insert (slots l) idx (a, T)" and ls: "lockstep ?l'"
    using insert_lockstep [of l idx T a] h by simp_all
  have len: "idx \<le> length (slots l)" "length (slots l) = size_List l"
    using h by (simp_all add: length_slots)
  show "size_List ?l' = Suc (size_List l)"
    using h by (simp add: insert_List_def size_List_def length_vec_insert)
  show "lockstep ?l'" by (rule ls)
  show "slots ?l' = take idx (slots l) @ (a, T) # drop idx (slots l)"
    by (simp add: sl vec_insert_def)
  show "slots ?l' ! idx = (a, T)"
    using len by (simp add: sl nth_vec_insert)
  show "\<forall>j. j < idx \<longrightarrow> slots ?l' ! j = slots l ! j"
    using len by (simp add: sl nth_vec_insert)
  show "\<forall>j. idx \<le> j \<and> j < size_List l \<longrightarrow> slots ?l' ! Suc j = slots l ! j"
    using len by (simp add: sl nth_vec_insert)
qed

theorem insert_index_witness:
  "size_List scenario < 4
   \<and> insert_List scenario 4 ty_int (Holds (IntV 7)) = scenario
   \<and> lockstep scenario \<and> 3 \<le> size_List scenario
   \<and> slots (insert_List scenario 3 ty_int (Holds (IntV 7))) =
       slots scenario @ [(Holds (IntV 7), ty_int)]
   \<and> slots (insert_List scenario 3 ty_int (Holds (IntV 7))) ! 3 = (Holds (IntV 7), ty_int)"
  using insert_index [of scenario 4 ty_int "Holds (IntV 7)"]
    insert_index [of scenario 3 ty_int "Holds (IntV 7)"]
  by (simp add: scenario_def lockstep_def slots_def size_List_def)

text \<open>
  C8. The claim is that \<open>open\<close> with the mode \<open>READ\<close> on a path that does not exist
  fails with \<open>FileNotExistError\<close>. For a path of 229 characters that does not exist,
  \<open>open\<close> makes the one call of \<open>access\<close> and then constructs the exception, whose
  constructor formats 256 characters and the terminating zero into \<open>message[256]\<close>:
  the behaviour is undefined and no exception is thrown. For a short path the
  exception is thrown as claimed (\<open>open_file_failures\<close>).
\<close>

theorem open_long_name_overflow:
  "length long_name = 229
   \<and> access_answer absent_os long_name F_OK \<noteq> 0
   \<and> fst (open_file absent_os long_name READ) = None
   \<and> calls (snd (open_file absent_os long_name READ)) = [Access long_name F_OK]"
  by (simp add: long_name_def absent_os_def open_file_def is_exist_def access_def
      new_FileNotExistError_def sprintf_message_def)

text \<open>
  C9. Calling \<open>reverse()\<close> twice gives the list back: the values and the
  discriminators are both in their original order.
\<close>

theorem reverse_involution: "reverse (reverse l) = l"
  by (simp add: reverse_def)

text \<open>
  C10. \<open>remove(value)\<close> erases the first slot whose stored value has the type of
  \<open>value\<close> and is equal to it, whatever the discriminator of that slot. When the
  discriminator of that slot is another type, \<open>index\<close> never returns the slot and
  \<open>count\<close> does not count it: the count is the same after the removal.
\<close>

theorem remove_ignores_discriminator:
  assumes "lockstep l"
    and "i < size_List l"
    and "value_matches v (data l ! i)"
    and "\<forall>j. j < i \<longrightarrow> \<not> value_matches v (data l ! j)"
  shows "remove_List l v =
           l\<lparr>data := take i (data l) @ drop (Suc i) (data l),
             types := take i (types l) @ drop (Suc i) (types l)\<rparr>
    \<and> (types l ! i \<noteq> type_of v \<longrightarrow>
          index l v start \<noteq> Inr i \<and> count (remove_List l v) v = count l v)"
proof -
  have it: "find_if (cast_equal v) (data l) = i"
    using assms(2,3,4) by (intro find_if_first) (simp_all add: size_List_def cast_equal_iff)
  have rem: "remove_List l v =
      l\<lparr>data := vec_erase (data l) i, types := vec_erase (types l) i\<rparr>"
    using assms(2) by (simp add: remove_List_def it size_List_def)
  have skip: "index l v start \<noteq> Inr i \<and> count (remove_List l v) v = count l v"
    if ty: "types l ! i \<noteq> type_of v"
  proof
    note ls = assms(1)
    show "index l v start \<noteq> Inr i"
      using ty by (simp add: index_Inr_iff slot_matches_def)
    have len: "i < length (slots l)"
      using ls assms(2) by (simp add: length_slots)
    have nth: "slots l ! i = (data l ! i, types l ! i)"
      using ls assms(2) by (simp add: slots_def lockstep_def size_List_def)
    have "slots (remove_List l v) = vec_erase (slots l) i"
      using remove_lockstep [OF ls, of v] assms(2) by (simp add: it)
    moreover have "lockstep (remove_List l v)"
      using remove_lockstep [OF ls, of v] by simp
    ultimately show "count (remove_List l v) v = count l v"
      using ls ty len nth by (simp add: count_slots filter_vec_erase)
  qed
  from rem skip show ?thesis
    by (simp add: vec_erase_def)
qed

theorem remove_ignores_discriminator_witness:
  "lockstep mistagged \<and> 1 < size_List mistagged
   \<and> value_matches (IntV 5) (data mistagged ! 1)
   \<and> types mistagged ! 1 \<noteq> type_of (IntV 5)
   \<and> remove_List mistagged (IntV 5) = \<lparr>data = [Holds (StringV ''five'')], types = [ty_string]\<rparr>
   \<and> index mistagged (IntV 5) 0 \<noteq> Inr 1
   \<and> index mistagged (IntV 5) 0 = Inl (invalid_argument ''Value not found'')
   \<and> count (remove_List mistagged (IntV 5)) (IntV 5) = count mistagged (IntV 5)
   \<and> count mistagged (IntV 5) = 0"
  using remove_ignores_discriminator [of mistagged 1 "IntV 5" 0]
  by (auto simp add: mistagged_def List_new_def append_List_def size_List_def value_matches_def
      lockstep_def index.simps count_def count_loop.simps slot_matches_def)

end
